theory Spec2Isabelle
  imports Complex_Main "HOL-Library.Word"
begin

section \<open>The spatial rotation engine (src/lib/8d-effects.ts)\<close>

text \<open>
  In this class JavaScript numbers are modelled as real numbers: arithmetic is exact, and
  there is neither NaN nor an infinity. The Web Audio nodes the class owns are modelled by the
  values the class writes to them: a panner by its three position parameters (a call
  \<^verbatim>\<open>setValueAtTime(v, currentTime)\<close> sets the parameter to \<^verbatim>\<open>v\<close>), the analyser by its
  \<^verbatim>\<open>fftSize\<close>. The gain node and the graph connections carry no state that the
  operations below read.
\<close>

record EightDConfig =
  speed :: real
  intensity :: real
  radius :: real

text \<open>\<^verbatim>\<open>Partial<EightDConfig>\<close>: every key may be absent (\<open>None\<close>).\<close>

record PartialEightDConfig =
  speed_opt :: "real option"
  intensity_opt :: "real option"
  radius_opt :: "real option"

record PannerNode =
  positionX :: real
  positionY :: real
  positionZ :: real

record AnalyserNode =
  fftSize :: nat

text \<open>
  The fields of the class. \<open>rafCounter\<close> is the host's counter of animation-frame
  requests: \<^verbatim>\<open>requestAnimationFrame\<close> returns a fresh handle on every call.
\<close>

record EightDProcessor =
  pannerNodes :: "PannerNode list"
  analyserNode :: AnalyserNode
  isActive :: bool
  animationId :: "nat option"
  angle :: real
  config :: EightDConfig
  rafCounter :: nat

text \<open>
  What the two classes can throw: a TypeError for reading \<^verbatim>\<open>panner.positionX\<close> of
  \<^verbatim>\<open>undefined\<close>, a RangeError for a call with more arguments than the engine takes, and
  \<^verbatim>\<open>new Error(message)\<close>.
\<close>

datatype error = TypeError | RangeError | Error string

text \<open>
  The constructor with \<^verbatim>\<open>setupNodes\<close>: the field initialisers, the default config, the
  analyser window of 2048 and one panner pushed at the start position (3, 0, 0).
\<close>

definition setupNodes :: "EightDProcessor \<Rightarrow> EightDProcessor" where
  "setupNodes s =
     s\<lparr>analyserNode := \<lparr>fftSize = 2048\<rparr>,
       pannerNodes := pannerNodes s @ [\<lparr>positionX = 3, positionY = 0, positionZ = 0\<rparr>]\<rparr>"

definition constructor :: EightDProcessor where
  "constructor =
     setupNodes
       \<lparr>pannerNodes = [], analyserNode = \<lparr>fftSize = 2048\<rparr>, isActive = False,
        animationId = None, angle = 0,
        config = \<lparr>speed = 2.5, intensity = 1.0, radius = 5.0\<rparr>, rafCounter = 0\<rparr>"

text \<open>
  \<^verbatim>\<open>animate\<close>: one tick. It returns at once when the engine is not active; otherwise it
  advances the angle, writes the position of \<^verbatim>\<open>pannerNodes[0]\<close> and requests the next frame.
\<close>

definition animate :: "EightDProcessor \<Rightarrow> error + EightDProcessor" where
  "animate s =
     (if \<not> isActive s then Inr s
      else
        let angle' = angle s + speed (config s) * 0.05 in
        (case pannerNodes s of
           [] \<Rightarrow> Inl TypeError
         | panner # rest \<Rightarrow>
             let radius' = radius (config s) * intensity (config s);
                 x = cos angle' * radius';
                 z = sin angle' * radius';
                 y = 0
             in Inr (s\<lparr>angle := angle',
                       pannerNodes :=
                         panner\<lparr>positionX := x, positionY := y, positionZ := z\<rparr> # rest,
                       animationId := Some (Suc (rafCounter s)),
                       rafCounter := Suc (rafCounter s)\<rparr>)))"

definition start :: "EightDProcessor \<Rightarrow> error + EightDProcessor" where
  "start s = (if isActive s then Inr s else animate (s\<lparr>isActive := True\<rparr>))"

definition stop :: "EightDProcessor \<Rightarrow> EightDProcessor" where
  "stop s =
     (let s1 = s\<lparr>isActive := False\<rparr>;
          s2 = (if animationId s1 \<noteq> None then s1\<lparr>animationId := None\<rparr> else s1)
      in if length (pannerNodes s2) > 0
         then (case pannerNodes s2 of
                 panner # rest \<Rightarrow>
                   s2\<lparr>pannerNodes :=
                        panner\<lparr>positionX := 0, positionY := 0, positionZ := -1\<rparr> # rest\<rparr>
               | [] \<Rightarrow> s2)
         else s2)"

text \<open>\<^verbatim>\<open>{ ...this.config, ...config }\<close>: a key present in the argument wins.\<close>

definition updateConfig :: "EightDProcessor \<Rightarrow> PartialEightDConfig \<Rightarrow> EightDProcessor" where
  "updateConfig s c =
     s\<lparr>config :=
         \<lparr>speed = (case speed_opt c of Some v \<Rightarrow> v | None \<Rightarrow> speed (config s)),
          intensity = (case intensity_opt c of Some v \<Rightarrow> v | None \<Rightarrow> intensity (config s)),
          radius = (case radius_opt c of Some v \<Rightarrow> v | None \<Rightarrow> radius (config s))\<rparr>\<rparr>"

text \<open>
  The two members of the platform's analyser that \<^verbatim>\<open>getAnalyserData\<close> uses, as the Web
  Audio API defines them: \<^verbatim>\<open>frequencyBinCount\<close> is half of \<^verbatim>\<open>fftSize\<close>, and
  \<^verbatim>\<open>getByteFrequencyData(array)\<close> copies the analyser's current byte data into the array,
  as many elements as both hold. The current data is a parameter of the model.
\<close>

definition frequencyBinCount :: "AnalyserNode \<Rightarrow> nat" where
  "frequencyBinCount a = fftSize a div 2"

definition getByteFrequencyData :: "8 word list \<Rightarrow> 8 word list \<Rightarrow> 8 word list" where
  "getByteFrequencyData current array = take (length array) current @ drop (length current) array"

definition getAnalyserData :: "EightDProcessor \<Rightarrow> 8 word list \<Rightarrow> 8 word list" where
  "getAnalyserData s current =
     (let dataArray = replicate (frequencyBinCount (analyserNode s)) 0
      in getByteFrequencyData current dataArray)"

text \<open>The position of the first panner, the one the engine moves.\<close>

definition position :: "EightDProcessor \<Rightarrow> (real \<times> real \<times> real) option" where
  "position s =
     (case pannerNodes s of
        [] \<Rightarrow> None
      | p # _ \<Rightarrow> Some (positionX p, positionY p, positionZ p))"

text \<open>
  The calls a client and the frame scheduler can make, and a run of them from a state.
  \<open>Tick\<close> is the scheduled callback \<^verbatim>\<open>() => this.animate()\<close>.
\<close>

datatype call = Start | Stop | Tick | UpdateConfig PartialEightDConfig

fun step :: "EightDProcessor \<Rightarrow> call \<Rightarrow> error + EightDProcessor" where
  "step s Start = start s"
| "step s Stop = Inr (stop s)"
| "step s Tick = animate s"
| "step s (UpdateConfig c) = Inr (updateConfig s c)"

fun run :: "EightDProcessor \<Rightarrow> call list \<Rightarrow> error + EightDProcessor" where
  "run s [] = Inr s"
| "run s (c # cs) = (case step s c of Inl e \<Rightarrow> Inl e | Inr s' \<Rightarrow> run s' cs)"

fun ticks :: "nat \<Rightarrow> EightDProcessor \<Rightarrow> error + EightDProcessor" where
  "ticks 0 s = Inr s"
| "ticks (Suc n) s = (case animate s of Inl e \<Rightarrow> Inl e | Inr s' \<Rightarrow> ticks n s')"

text \<open>What every call preserves: one panner and the analysis window of 2048.\<close>

definition wired :: "EightDProcessor \<Rightarrow> bool" where
  "wired s \<longleftrightarrow> pannerNodes s \<noteq> [] \<and> fftSize (analyserNode s) = 2048"

section \<open>The tempo estimator and the rhythmic quantizer (client/src/lib/audio-processor.ts)\<close>

subsection \<open>Double-precision arithmetic\<close>

text \<open>
  The results of the tempo estimator depend on the rounding of its arithmetic, so there a
  number is a double: a real number with a significand of 53 bits, and every operation of
  the source is the exact operation followed by rounding to the nearest double, a tie
  going to the even significand. The exponent is not limited: there is no overflow,
  underflow, infinity or NaN (the estimator's values on decoded samples, which are 32-bit
  floats, stay within the range of doubles). Literals are the nearest doubles (\<open>fl 0.1\<close>);
  those written without \<open>fl\<close> are doubles as they stand.
\<close>

text \<open>
  The binary exponent of a number other than zero: \<open>2 ^ expo x \<le> |x| < 2 ^ (expo x + 1)\<close>,
  found by halving a number from 2 on and doubling a number below 1.
\<close>

function expo_up :: "real \<Rightarrow> int" where
  "expo_up x = (if 2 \<le> x then expo_up (x / 2) + 1 else 0)"
  by pat_completeness auto
termination
proof (relation "measure (\<lambda>x. nat \<lfloor>x\<rfloor>)")
  show "wf (measure (\<lambda>x::real. nat \<lfloor>x\<rfloor>))" by simp
next
  fix x :: real
  assume "2 \<le> x"
  then have "x / 2 \<le> x - 1" by simp
  moreover have "x - 1 < of_int \<lfloor>x\<rfloor>" by linarith
  ultimately have "x / 2 < of_int \<lfloor>x\<rfloor>" by linarith
  then have "\<lfloor>x / 2\<rfloor> < \<lfloor>x\<rfloor>" by (simp add: floor_less_iff)
  moreover have "0 < \<lfloor>x\<rfloor>" using \<open>2 \<le> x\<close> by linarith
  ultimately show "(x / 2, x) \<in> measure (\<lambda>x. nat \<lfloor>x\<rfloor>)" by simp
qed

function expo_down :: "real \<Rightarrow> int" where
  "expo_down x = (if 0 < x \<and> x < 1 then expo_down (x * 2) - 1 else 0)"
  by pat_completeness auto
termination
proof (relation "measure (\<lambda>x. nat \<lceil>1 / x\<rceil>)")
  show "wf (measure (\<lambda>x::real. nat \<lceil>1 / x\<rceil>))" by simp
next
  fix x :: real
  assume a: "0 < x \<and> x < 1"
  then have y: "1 < 1 / x" by simp
  have "\<lceil>1 / (x * 2)\<rceil> < \<lceil>1 / x\<rceil>"
  proof (cases "2 \<le> 1 / x")
    case True
    have "1 / (x * 2) = (1 / x) / 2" by simp
    then have "1 / (x * 2) \<le> 1 / x - 1" using True by linarith
    then have "\<lceil>1 / (x * 2)\<rceil> \<le> \<lceil>1 / x - 1\<rceil>" by (rule ceiling_mono)
    then show ?thesis by simp
  next
    case False
    have "1 / (x * 2) = (1 / x) / 2" by simp
    with False have "1 / (x * 2) \<le> 1" by linarith
    then have "\<lceil>1 / (x * 2)\<rceil> \<le> 1" by (simp add: ceiling_le_iff)
    moreover have "1 < \<lceil>1 / x\<rceil>" using y le_of_int_ceiling [of "1 / x"] by linarith
    ultimately show ?thesis by linarith
  qed
  moreover have "0 < \<lceil>1 / x\<rceil>" using y le_of_int_ceiling [of "1 / x"] by linarith
  ultimately show "(x * 2, x) \<in> measure (\<lambda>x. nat \<lceil>1 / x\<rceil>)" by simp
qed

declare expo_up.simps [simp del] expo_down.simps [simp del]

definition expo :: "real \<Rightarrow> int" where
  "expo x = (if 1 \<le> \<bar>x\<bar> then expo_up \<bar>x\<bar> else expo_down \<bar>x\<bar>)"

text \<open>The nearest integer, a tie going to the even one.\<close>

definition round_even :: "real \<Rightarrow> int" where
  "round_even x =
     (let f = \<lfloor>x\<rfloor>; d = x - of_int f
      in if d < 1 / 2 then f else if 1 / 2 < d then f + 1 else if even f then f else f + 1)"

text \<open>
  \<open>fl x\<close> is the double nearest to \<open>x\<close>: a whole multiple of the unit in the last of
  the 53 bits.
\<close>

definition fl :: "real \<Rightarrow> real" where
  "fl x =
     (if x = 0 then 0
      else let ulp = 2 powi (expo x - 52)
           in sgn x * (of_int (round_even (\<bar>x\<bar> / ulp)) * ulp))"

text \<open>
  \<open>f32 x\<close> is the 32-bit float nearest to \<open>x\<close>, with a significand of 24 bits: what a
  \<^verbatim>\<open>Float32Array\<close> holds of a number stored in it. It is a double.
\<close>

definition f32 :: "real \<Rightarrow> real" where
  "f32 x =
     (if x = 0 then 0
      else let ulp = 2 powi (expo x - 23)
           in sgn x * (of_int (round_even (\<bar>x\<bar> / ulp)) * ulp))"

subsection \<open>The speed mapper\<close>

text \<open>
  \<^verbatim>\<open>Math.round\<close>: the nearest integer, a tie going up. It is exact: not the rounded sum
  \<open>x + 0.5\<close>.
\<close>

definition Math_round :: "real \<Rightarrow> int" where
  "Math_round x = \<lfloor>x + 1 / 2\<rfloor>"

definition calculateOptimalSpeed :: "real \<Rightarrow> real" where
  "calculateOptimalSpeed bpm =
     (let beatFreq = fl (bpm / 60);
          optimalSpeed = max 0.5 (min 5.0 (fl (beatFreq * 0.25)))
      in fl (of_int (Math_round (fl (optimalSpeed * 100))) / 100))"

text \<open>
  The spec's words for the same function, in exact arithmetic:
  \<open>clamp(beatFreq * 0.25, 0.5, 5.0)\<close>, rounded to 2 decimal places.
\<close>

definition spec_clamp :: "real \<Rightarrow> real \<Rightarrow> real \<Rightarrow> real" where
  "spec_clamp v lo hi = (if v < lo then lo else if hi < v then hi else v)"

definition spec_round_2dp :: "real \<Rightarrow> real" where
  "spec_round_2dp v = of_int (round (v * 100)) / 100"

definition spec_mapSpeed :: "real \<Rightarrow> real" where
  "spec_mapSpeed bpm = spec_round_2dp (spec_clamp ((bpm / 60) * 0.25) 0.5 5.0)"

subsection \<open>The rhythmic quantizer\<close>

text \<open>
  The quantizer only compares numbers and picks among them; its numbers are real numbers.
\<close>

definition rhythmicRatios :: "real list" where
  "rhythmicRatios = [1 / 4, 1 / 2, 2 / 3, 3 / 4, 1, 4 / 3, 3 / 2, 2, 5 / 2, 3]"

text \<open>
  \<^verbatim>\<open>.sort((a, b) => a - b)\<close> puts numbers in ascending order; \<open>sort\<close> is the list
  library's insertion sort.
\<close>

definition getRhythmicMultipliers :: "real \<Rightarrow> real list" where
  "getRhythmicMultipliers bpm =
     (if bpm \<le> 0 then [0.25, 0.5, 0.75, 1.0, 1.25, 1.5, 2.0]
      else sort (filter (\<lambda>mult. mult \<ge> 0.25 \<and> mult \<le> 3.0)
                        (map (\<lambda>ratio. ratio) rhythmicRatios)))"



subsection \<open>The tempo estimator\<close>

text \<open>
  A decoded buffer: the samples of channel 0 and the sample rate, a whole number of Hz.
  \<^verbatim>\<open>getChannelData(0)\<close> is a \<^verbatim>\<open>Float32Array\<close>: reading the sample at an index gives the
  32-bit float of the sample, \<open>f32\<close> of it (the sample itself when it is one).
  The processor holds the audio context, or \<^verbatim>\<open>null\<close> when its creation failed in the
  constructor (\<open>audioContext\<close> is False then), and the buffer of the last decoding.
\<close>

record AudioBuffer =
  channel0 :: "real list"
  sampleRate :: nat

record AudioProcessor =
  audioContext :: bool
  audioBuffer :: "AudioBuffer option"

text \<open>
  The loops of \<^verbatim>\<open>detectBPM\<close>. The inner loop sums the squares of the samples
  \<open>i, ..., i + windowSize - 1\<close>, which the condition of the outer loop keeps inside the
  array. The outer loop steps by \<open>hopSize\<close>; with \<open>hopSize = 0\<close> it never leaves a window
  it has entered, so it is a partial function: \<open>None\<close> is "does not return".
\<close>

definition window_sum :: "real list \<Rightarrow> nat \<Rightarrow> nat \<Rightarrow> real" where
  "window_sum channelData i windowSize =
     fold (\<lambda>j sum. fl (sum + fl (f32 (channelData ! j) * f32 (channelData ! j))))
       [i ..< i + windowSize] 0"

partial_function (option)
  energy_loop :: "real list \<Rightarrow> nat \<Rightarrow> nat \<Rightarrow> nat \<Rightarrow> real list \<Rightarrow> real list option"
where
  "energy_loop channelData windowSize hopSize i energy =
     (if int i < int (length channelData) - int windowSize
      then energy_loop channelData windowSize hopSize (i + hopSize)
             (energy @ [fl (window_sum channelData i windowSize / real windowSize)])
      else Some energy)"

text \<open>
  \<^verbatim>\<open>Math.max(...energy)\<close> passes every element as an argument. An engine takes only so
  many arguments (the number depends on the engine and its stack: \<open>argLimit\<close>, a parameter
  of the model) and throws a RangeError beyond. Of no argument the maximum is minus
  infinity (\<open>None\<close>), below every number.
\<close>

definition Math_max :: "nat \<Rightarrow> real list \<Rightarrow> error + real option" where
  "Math_max argLimit xs =
     (if argLimit < length xs then Inl RangeError
      else case xs of [] \<Rightarrow> Inr None | x # rest \<Rightarrow> Inr (Some (fold max rest x)))"

text \<open>
  The loop that finds the peaks, over the indices \<open>1, ..., energy.length - 2\<close>; the
  threshold is computed, and can throw, only at an index above both its neighbours.
\<close>

fun peaks_loop ::
  "nat \<Rightarrow> real list \<Rightarrow> nat \<Rightarrow> nat \<Rightarrow> nat list \<Rightarrow> real list \<Rightarrow> error + real list"
where
  "peaks_loop argLimit energy hopSize rate [] peaks = Inr peaks"
| "peaks_loop argLimit energy hopSize rate (i # rest) peaks =
     (if energy ! i > energy ! (i - 1) \<and> energy ! i > energy ! (i + 1)
      then (case Math_max argLimit energy of
              Inl e \<Rightarrow> Inl e
            | Inr m \<Rightarrow>
                if (case m of
                      None \<Rightarrow> True
                    | Some m' \<Rightarrow> let threshold = fl (m' * fl 0.3) in energy ! i > threshold)
                then peaks_loop argLimit energy hopSize rate rest
                       (peaks @ [fl (fl (real i * real hopSize) / real rate)])
                else peaks_loop argLimit energy hopSize rate rest peaks)
      else peaks_loop argLimit energy hopSize rate rest peaks)"

definition find_peaks :: "nat \<Rightarrow> real list \<Rightarrow> nat \<Rightarrow> nat \<Rightarrow> error + real list" where
  "find_peaks argLimit energy hopSize rate =
     peaks_loop argLimit energy hopSize rate [1 ..< length energy - 1] []"

definition peak_intervals :: "real list \<Rightarrow> real list" where
  "peak_intervals peaks = map (\<lambda>i. fl (peaks ! i - peaks ! (i - 1))) [1 ..< length peaks]"

text \<open>
  \<^verbatim>\<open>detectBPM\<close>: the bpm returned, or the error thrown; \<open>None\<close> is "does not return".
  \<open>60 / avgInterval\<close> is infinite for a zero average, and the clamp makes 200 of it; the
  division of HOL would give 0, so the case is written out.
\<close>

definition detectBPM :: "nat \<Rightarrow> AudioProcessor \<Rightarrow> (error + int) option" where
  "detectBPM argLimit p =
     (case audioBuffer p of
        None \<Rightarrow> Some (Inr 120)
      | Some buffer \<Rightarrow>
          if \<not> audioContext p then Some (Inr 120)
          else
            let windowSize = nat \<lfloor>fl (real (sampleRate buffer) * fl 0.1)\<rfloor>;
                hopSize = nat \<lfloor>fl (real windowSize / 2)\<rfloor>
            in case energy_loop (channel0 buffer) windowSize hopSize 0 [] of
                 None \<Rightarrow> None
               | Some energy \<Rightarrow>
                   (case find_peaks argLimit energy hopSize (sampleRate buffer) of
                      Inl e \<Rightarrow> Some (Inl e)
                    | Inr peaks \<Rightarrow>
                        let intervals = peak_intervals peaks
                        in if length intervals = 0 then Some (Inr 120)
                           else
                             let avgInterval =
                                   fl (foldl (\<lambda>a b. fl (a + b)) 0 intervals
                                       / real (length intervals))
                             in if avgInterval = 0 then Some (Inr 200)
                                else Some (Inr (max 60 (min 200
                                       (Math_round (fl (60 / avgInterval))))))))"

record BPMAnalysisResult =
  bpm :: int
  confidence :: real
  optimalSpeed :: real

text \<open>
  \<^verbatim>\<open>analyzeFile\<close>. The last argument is what \<^verbatim>\<open>file.arrayBuffer()\<close> and
  \<^verbatim>\<open>decodeAudioData\<close> make of the file: a buffer, or \<open>None\<close> when either rejects. The
  \<^verbatim>\<open>catch\<close> turns that, and an error thrown by \<^verbatim>\<open>detectBPM\<close>, into the default values.
  The result is the value returned or the error thrown, with the processor after the
  call; \<open>None\<close> is "does not return". The confidence 0.85 is the literal of the source,
  which is only passed on.
\<close>

definition analyzeFile ::
  "nat \<Rightarrow> AudioProcessor \<Rightarrow> AudioBuffer option
     \<Rightarrow> ((error + BPMAnalysisResult) \<times> AudioProcessor) option"
where
  "analyzeFile argLimit p decoded =
     (if \<not> audioContext p then Some (Inl (Error ''Audio context not initialized''), p)
      else
        case decoded of
          None \<Rightarrow> Some (Inr \<lparr>bpm = 120, confidence = 0.5, optimalSpeed = 2.0\<rparr>, p)
        | Some buffer \<Rightarrow>
            let p' = p\<lparr>audioBuffer := Some buffer\<rparr>
            in case detectBPM argLimit p' of
                 None \<Rightarrow> None
               | Some (Inl e) \<Rightarrow>
                   Some (Inr \<lparr>bpm = 120, confidence = 0.5, optimalSpeed = 2.0\<rparr>, p')
               | Some (Inr detected) \<Rightarrow>
                   Some (Inr \<lparr>bpm = detected, confidence = 0.85,
                              optimalSpeed = calculateOptimalSpeed (real_of_int detected)\<rparr>,
                         p'))"

section \<open>Example inputs\<close>

text \<open>A running engine at angle 0 with speed 2, intensity 1 and radius 1.\<close>

definition running_at_2_1_1 :: EightDProcessor where
  "running_at_2_1_1 =
     (updateConfig constructor
        \<lparr>speed_opt = Some 2.0, intensity_opt = Some 1.0, radius_opt = Some 1.0\<rparr>)
     \<lparr>isActive := True\<rparr>"

text \<open>
  Two seconds of silence at 44.1 kHz, a quarter of a second of silence at 8 kHz, and two
  clicks 0.75 s apart at 20 Hz, the lowest rate at which the hop is not zero.
\<close>

definition silence_44100 :: AudioBuffer where
  "silence_44100 = \<lparr>channel0 = replicate 88200 0, sampleRate = 44100\<rparr>"

definition silence_8000 :: AudioBuffer where
  "silence_8000 = \<lparr>channel0 = replicate 2000 0, sampleRate = 8000\<rparr>"

definition clicks :: AudioBuffer where
  "clicks =
     \<lparr>channel0 = [0, 0, 0, 0, 0, 1, 1, 0, 0, 0, 0, 0, 0, 0, 0, 0, 0, 0, 0, 0, 1, 1, 0, 0],
      sampleRate = 20\<rparr>"

text \<open>
  Half a second at 30 Hz in which three sample values repeat. Every window of three
  samples holds the same three values, so in exact arithmetic all energies are equal.
\<close>

definition steps :: AudioBuffer where
  "steps =
     \<lparr>channel0 = [0.1, 0.1, 0.9, 0.1, 0.1, 0.9, 0.1, 0.1, 0.9, 0.1, 0.1, 0.9, 0.1, 0.1, 0.9],
      sampleRate = 30\<rparr>"

text \<open>A processor whose audio context was created, and one where the creation failed.\<close>

definition ready :: AudioProcessor where
  "ready = \<lparr>audioContext = True, audioBuffer = None\<rparr>"

definition uninitialized :: AudioProcessor where
  "uninitialized = \<lparr>audioContext = False, audioBuffer = None\<rparr>"

section \<open>Properties of the rotation engine\<close>

lemma wired_constructor: "wired constructor"
  by (simp add: wired_def constructor_def setupNodes_def)

lemma animate_wired:
  assumes "wired s"
  shows "\<exists>s'. animate s = Inr s' \<and> wired s' \<and> isActive s' = isActive s \<and> config s' = config s"
proof -
  from assms obtain p ps where "pannerNodes s = p # ps"
    by (cases "pannerNodes s") (auto simp: wired_def)
  with assms show ?thesis
    by (simp add: animate_def wired_def Let_def)
qed

lemma start_wired:
  assumes "wired s"
  shows "\<exists>s'. start s = Inr s' \<and> wired s' \<and> isActive s'"
proof (cases "isActive s")
  case True
  with assms show ?thesis by (simp add: start_def)
next
  case False
  have "wired (s\<lparr>isActive := True\<rparr>)"
    using assms by (simp add: wired_def)
  from animate_wired [OF this] False show ?thesis
    by (auto simp: start_def)
qed

lemma stop_wired: "wired s \<Longrightarrow> wired (stop s)"
  by (cases "pannerNodes s") (auto simp: stop_def wired_def Let_def)

lemma updateConfig_wired: "wired s \<Longrightarrow> wired (updateConfig s c)"
  by (simp add: updateConfig_def wired_def)

lemma step_wired:
  assumes "wired s"
  shows "\<exists>s'. step s c = Inr s' \<and> wired s'"
proof (cases c)
  case Start
  with start_wired [OF assms] show ?thesis by auto
next
  case Stop
  with stop_wired [OF assms] show ?thesis by simp
next
  case Tick
  with animate_wired [OF assms] show ?thesis by auto
next
  case (UpdateConfig p)
  with updateConfig_wired [OF assms] show ?thesis by simp
qed

lemma run_wired: "wired s \<Longrightarrow> \<exists>t. run s cs = Inr t \<and> wired t"
proof (induction cs arbitrary: s)
  case Nil
  then show ?case by simp
next
  case (Cons c cs)
  from step_wired [OF Cons.prems] obtain s' where s': "step s c = Inr s'" "wired s'"
    by blast
  from Cons.IH [OF s'(2)] s'(1) show ?case by simp
qed

lemma stop_position: "wired s \<Longrightarrow> position (stop s) = Some (0, 0, -1)"
  by (cases "pannerNodes s") (auto simp: stop_def wired_def position_def Let_def)

lemma stop_stop: "stop (stop s) = stop s"
  by (cases "pannerNodes s") (auto simp: stop_def Let_def)

lemma start_start:
  assumes "start s = Inr s1"
  shows "start s1 = Inr s1"
proof (cases "isActive s")
  case True
  with assms show ?thesis by (auto simp: start_def)
next
  case False
  with assms have "animate (s\<lparr>isActive := True\<rparr>) = Inr s1"
    by (simp add: start_def)
  then have "isActive s1"
    by (cases "pannerNodes s") (auto simp: animate_def Let_def)
  then show ?thesis by (simp add: start_def)
qed

lemma animate_active:
  assumes "wired s" "isActive s"
  shows "\<exists>s'. animate s = Inr s' \<and> wired s' \<and> isActive s' \<and> config s' = config s \<and>
           angle s' = angle s + speed (config s) * 0.05 \<and>
           position s' =
             Some (cos (angle s') * radius (config s) * intensity (config s), 0,
                   sin (angle s') * radius (config s) * intensity (config s))"
proof -
  from assms(1) obtain p ps where "pannerNodes s = p # ps"
    by (cases "pannerNodes s") (auto simp: wired_def)
  with assms show ?thesis
    by (simp add: animate_def wired_def position_def Let_def)
qed

lemma ticks_active:
  assumes "wired s" "isActive s"
  shows "\<exists>t. ticks n s = Inr t \<and> wired t \<and> isActive t \<and> config t = config s \<and>
           angle t = angle s + real n * (speed (config s) * 0.05) \<and>
           (0 < n \<longrightarrow> position t =
              Some (cos (angle t) * radius (config s) * intensity (config s), 0,
                    sin (angle t) * radius (config s) * intensity (config s)))"
  using assms
proof (induction n arbitrary: s)
  case 0
  then show ?case by simp
next
  case (Suc n)
  from animate_active [OF Suc.prems] obtain s' where s':
    "animate s = Inr s'" "wired s'" "isActive s'" "config s' = config s"
    "angle s' = angle s + speed (config s) * 0.05"
    "position s' =
       Some (cos (angle s') * radius (config s) * intensity (config s), 0,
             sin (angle s') * radius (config s) * intensity (config s))"
    by blast
  from Suc.IH [OF s'(2) s'(3)] obtain t where t:
    "ticks n s' = Inr t" "wired t" "isActive t" "config t = config s'"
    "angle t = angle s' + real n * (speed (config s') * 0.05)"
    "0 < n \<longrightarrow> position t =
       Some (cos (angle t) * radius (config s') * intensity (config s'), 0,
             sin (angle t) * radius (config s') * intensity (config s'))"
    by blast
  have run: "ticks (Suc n) s = Inr t"
    using s'(1) t(1) by simp
  have ang: "angle t = angle s + real (Suc n) * (speed (config s) * 0.05)"
    using s'(4) s'(5) t(5) by (simp add: algebra_simps)
  have pos: "position t =
       Some (cos (angle t) * radius (config s) * intensity (config s), 0,
             sin (angle t) * radius (config s) * intensity (config s))"
  proof (cases n)
    case 0
    with t(1) have "t = s'" by simp
    with s'(6) show ?thesis by simp
  next
    case (Suc m)
    with t(6) s'(4) show ?thesis by simp
  qed
  from run ang pos t(2) t(3) t(4) s'(4) show ?case by simp
qed

text \<open>
  C4. Every tick of the running engine adds \<open>speed * 0.05\<close> to the angle and puts the
  panner at \<open>(cos angle * radius * intensity, 0, sin angle * radius * intensity)\<close>, with the
  new angle. From angle 0 with speed 2, radius 1 and intensity 1, ten ticks give the angle
  1 and the position \<open>(cos 1, 0, sin 1)\<close>. Numbers are real numbers here, so the values
  are the exact ones the floating-point results approximate.
\<close>

theorem animate_rotation:
  assumes "wired s" and "isActive s"
  shows "\<exists>s'. animate s = Inr s' \<and>
           angle s' = angle s + speed (config s) * 0.05 \<and>
           position s' =
             Some (cos (angle s') * radius (config s) * intensity (config s), 0,
                   sin (angle s') * radius (config s) * intensity (config s)) \<and>
           (angle s = 0 \<and> config s = \<lparr>speed = 2.0, intensity = 1.0, radius = 1.0\<rparr> \<longrightarrow>
              (\<exists>t. ticks 10 s = Inr t \<and> angle t = 10 * 2.0 * 0.05 \<and> angle t = 1 \<and>
                    position t = Some (cos 1, 0, sin 1)))"
proof -
  from animate_active [OF assms] obtain s' where s':
    "animate s = Inr s'" "angle s' = angle s + speed (config s) * 0.05"
    "position s' =
       Some (cos (angle s') * radius (config s) * intensity (config s), 0,
             sin (angle s') * radius (config s) * intensity (config s))"
    by blast
  have ten: "\<exists>t. ticks 10 s = Inr t \<and> angle t = 10 * 2.0 * 0.05 \<and> angle t = 1 \<and>
                 position t = Some (cos 1, 0, sin 1)"
    if a0: "angle s = 0" and c: "config s = \<lparr>speed = 2.0, intensity = 1.0, radius = 1.0\<rparr>"
  proof -
    from ticks_active [OF assms, of 10] obtain t where t:
      "ticks 10 s = Inr t"
      "angle t = angle s + real 10 * (speed (config s) * 0.05)"
      "position t =
         Some (cos (angle t) * radius (config s) * intensity (config s), 0,
               sin (angle t) * radius (config s) * intensity (config s))"
      by auto
    from t(2) a0 c have "angle t = 1" by simp
    with t(1) t(3) c show ?thesis by simp
  qed
  from s' ten show ?thesis by blast
qed

theorem animate_rotation_witness:
  "wired running_at_2_1_1 \<and> isActive running_at_2_1_1 \<and> angle running_at_2_1_1 = 0 \<and>
   config running_at_2_1_1 = \<lparr>speed = 2.0, intensity = 1.0, radius = 1.0\<rparr> \<and>
   (\<exists>t. ticks 10 running_at_2_1_1 = Inr t \<and> angle t = 1 \<and>
         position t = Some (cos 1, 0, sin 1))"
proof -
  have w: "wired running_at_2_1_1"
    by (simp add: running_at_2_1_1_def updateConfig_def constructor_def setupNodes_def
        wired_def)
  have a: "isActive running_at_2_1_1"
    by (simp add: running_at_2_1_1_def)
  have z: "angle running_at_2_1_1 = 0"
    by (simp add: running_at_2_1_1_def updateConfig_def constructor_def setupNodes_def)
  have c: "config running_at_2_1_1 = \<lparr>speed = 2.0, intensity = 1.0, radius = 1.0\<rparr>"
    by (simp add: running_at_2_1_1_def updateConfig_def)
  from animate_rotation [OF w a] z c w a show ?thesis by blast
qed

text \<open>
  C5. After any sequence of calls on a new engine: a second \<^verbatim>\<open>start()\<close> right after a
  first one changes nothing at all (so neither the angle nor the active flag), a
  \<^verbatim>\<open>stop()\<close> leaves the panner at (0, 0, -1), and a second \<^verbatim>\<open>stop()\<close> changes nothing.
\<close>

theorem start_stop_idempotent:
  "\<exists>t. run constructor cs = Inr t \<and>
       (\<exists>s1. start t = Inr s1 \<and> start s1 = Inr s1) \<and>
       position (stop t) = Some (0, 0, -1) \<and>
       stop (stop t) = stop t \<and>
       position (stop (stop t)) = Some (0, 0, -1)"
proof -
  from run_wired [OF wired_constructor] obtain t where t:
    "run constructor cs = Inr t" "wired t"
    by blast
  from start_wired [OF t(2)] obtain s1 where s1: "start t = Inr s1"
    by blast
  have "start s1 = Inr s1"
    using s1 by (rule start_start)
  moreover have "position (stop t) = Some (0, 0, -1)"
    using t(2) by (rule stop_position)
  moreover have "stop (stop t) = stop t"
    by (rule stop_stop)
  ultimately show ?thesis
    using t(1) s1 by simp
qed

text \<open>
  C8. \<^verbatim>\<open>updateConfig\<close> sets each field that the argument has and keeps each field that it
  has not; a new engine has speed 2.5, intensity 1.0 and radius 5.0; the angle, the active
  flag, the pending frame and the panners are the same after the call.
\<close>

theorem updateConfig_merge:
  "(speed_opt c = Some v \<longrightarrow> speed (config (updateConfig s c)) = v) \<and>
   (intensity_opt c = Some v \<longrightarrow> intensity (config (updateConfig s c)) = v) \<and>
   (radius_opt c = Some v \<longrightarrow> radius (config (updateConfig s c)) = v) \<and>
   (speed_opt c = None \<longrightarrow> speed (config (updateConfig s c)) = speed (config s)) \<and>
   (intensity_opt c = None \<longrightarrow>
      intensity (config (updateConfig s c)) = intensity (config s)) \<and>
   (radius_opt c = None \<longrightarrow> radius (config (updateConfig s c)) = radius (config s)) \<and>
   config constructor = \<lparr>speed = 2.5, intensity = 1.0, radius = 5.0\<rparr> \<and>
   angle (updateConfig s c) = angle s \<and>
   isActive (updateConfig s c) = isActive s \<and>
   animationId (updateConfig s c) = animationId s \<and>
   pannerNodes (updateConfig s c) = pannerNodes s"
  by (simp add: updateConfig_def constructor_def setupNodes_def)

theorem updateConfig_merge_witness:
  "speed_opt \<lparr>speed_opt = Some 4, intensity_opt = None, radius_opt = None\<rparr> = Some 4 \<and>
   intensity_opt \<lparr>speed_opt = Some 4, intensity_opt = None, radius_opt = None\<rparr> = None \<and>
   radius_opt \<lparr>speed_opt = Some 4, intensity_opt = None, radius_opt = None\<rparr> = None \<and>
   config (updateConfig constructor
             \<lparr>speed_opt = Some 4, intensity_opt = None, radius_opt = None\<rparr>) =
     \<lparr>speed = 4, intensity = 1.0, radius = 5.0\<rparr>"
  using updateConfig_merge
    [of "\<lparr>speed_opt = Some 4, intensity_opt = None, radius_opt = None\<rparr>" 4 constructor]
  by (cases "config (updateConfig constructor
               \<lparr>speed_opt = Some 4, intensity_opt = None, radius_opt = None\<rparr>)") simp

text \<open>
  C9. After any sequence of calls on a new engine, running or stopped, whatever the
  analyser's current data is, \<^verbatim>\<open>getAnalyserData\<close> returns 1024 bytes, half the window of
  2048, and each of them is between 0 and 255.
\<close>

theorem getAnalyserData_size:
  "\<exists>t. run constructor cs = Inr t \<and>
       frequencyBinCount (analyserNode t) = 2048 div 2 \<and>
       length (getAnalyserData t current) = 1024 \<and>
       (\<forall>v \<in> set (getAnalyserData t current). 0 \<le> uint v \<and> uint v \<le> 255)"
proof -
  from run_wired [OF wired_constructor] obtain t where t:
    "run constructor cs = Inr t" "wired t"
    by blast
  have n: "frequencyBinCount (analyserNode t) = 1024"
    using t(2) by (simp add: wired_def frequencyBinCount_def)
  have len: "length (getAnalyserData t current) = 1024"
    using n by (simp add: getAnalyserData_def getByteFrequencyData_def Let_def)
  have byte: "0 \<le> uint v \<and> uint v \<le> 255" for v :: "8 word"
    using uint_lt2p [of v] by simp
  from t(1) n len byte show ?thesis by simp
qed

theorem getAnalyserData_size_witness:
  "length (getAnalyserData (stop constructor) [255, 7]) = 1024 \<and>
   255 \<in> set (getAnalyserData (stop constructor) [255, 7]) \<and>
   uint (255 :: 8 word) \<le> 255"
proof -
  have m: "255 \<in> set (getAnalyserData (stop constructor) [255, 7])"
    by (simp add: getAnalyserData_def getByteFrequencyData_def frequencyBinCount_def
        stop_def constructor_def setupNodes_def Let_def)
  from getAnalyserData_size [of "[Stop]" "[255, 7]"] m show ?thesis
    by auto
qed

text \<open>
  C10. \<^verbatim>\<open>stop()\<close> does not touch the angle or the config, and after any sequence of calls
  on a new engine a \<^verbatim>\<open>start()\<close> that follows a \<^verbatim>\<open>stop()\<close> makes its first tick from the
  angle the engine had before the stop.
\<close>

theorem stop_keeps_angle:
  "angle (stop s) = angle s \<and> config (stop s) = config s \<and> \<not> isActive (stop s) \<and>
   (\<exists>t. run constructor cs = Inr t \<and>
        (\<exists>u. start (stop t) = Inr u \<and> isActive u \<and>
             angle u = angle t + speed (config t) * 0.05))"
proof -
  have frame: "angle (stop s) = angle s \<and> config (stop s) = config s \<and> \<not> isActive (stop s)"
    for s
    by (cases "pannerNodes s") (auto simp: stop_def Let_def)
  from run_wired [OF wired_constructor] obtain t where t:
    "run constructor cs = Inr t" "wired t"
    by blast
  have w: "wired (stop t\<lparr>isActive := True\<rparr>)"
    using stop_wired [OF t(2)] by (simp add: wired_def)
  from animate_active [OF w] obtain u where u:
    "animate (stop t\<lparr>isActive := True\<rparr>) = Inr u" "isActive u"
    "angle u = angle (stop t\<lparr>isActive := True\<rparr>) +
       speed (config (stop t\<lparr>isActive := True\<rparr>)) * 0.05"
    by auto
  have "start (stop t) = Inr u"
    using u(1) frame [of t] by (simp add: start_def)
  moreover have "angle u = angle t + speed (config t) * 0.05"
    using u(3) frame [of t] by simp
  ultimately show ?thesis
    using frame [of s] t(1) u(2) by blast
qed

section \<open>Properties of the quantizer\<close>

lemma getRhythmicMultipliers_pos:
  "0 < tempo \<Longrightarrow>
   getRhythmicMultipliers tempo = [1 / 4, 1 / 2, 2 / 3, 3 / 4, 1, 4 / 3, 3 / 2, 2, 5 / 2, 3]"
  by (simp add: getRhythmicMultipliers_def rhythmicRatios_def)

lemma getRhythmicMultipliers_nonpos:
  "tempo \<le> 0 \<Longrightarrow> getRhythmicMultipliers tempo = [1 / 4, 1 / 2, 3 / 4, 1, 5 / 4, 3 / 2, 2]"
  by (simp add: getRhythmicMultipliers_def)

lemma getRhythmicMultipliers_sorted: "sorted (getRhythmicMultipliers tempo)"
  by (cases "tempo \<le> 0")
    (simp_all add: getRhythmicMultipliers_pos getRhythmicMultipliers_nonpos)

text \<open>
  C3, as the code has it. The result is sorted ascending for every tempo. For a positive tempo
  it is the constant sequence 1/4, 1/2, 2/3, 3/4, 1, 4/3, 3/2, 2, 5/2, 3 (the spec's 0.667
  and 1.333 are 2/3 and 4/3); for a tempo that is zero or negative it is the sequence
  0.25, 0.5, 0.75, 1, 1.25, 1.5, 2 of the guard at the head of the function.
\<close>

theorem getRhythmicMultipliers_values:
  "sorted (getRhythmicMultipliers tempo) \<and>
   (0 < tempo \<longrightarrow>
      getRhythmicMultipliers tempo = [1 / 4, 1 / 2, 2 / 3, 3 / 4, 1, 4 / 3, 3 / 2, 2, 5 / 2, 3] \<and>
      set (getRhythmicMultipliers tempo)
        \<subseteq> {1 / 4, 1 / 2, 2 / 3, 3 / 4, 1, 4 / 3, 3 / 2, 2, 5 / 2, 3}) \<and>
   (tempo \<le> 0 \<longrightarrow> getRhythmicMultipliers tempo = [0.25, 0.5, 0.75, 1.0, 1.25, 1.5, 2.0])"
  using getRhythmicMultipliers_sorted [of tempo]
  by (simp add: getRhythmicMultipliers_pos getRhythmicMultipliers_nonpos)

theorem getRhythmicMultipliers_values_witness:
  "(0::real) < 120 \<and> (-1::real) \<le> 0 \<and>
   getRhythmicMultipliers 120 = [1 / 4, 1 / 2, 2 / 3, 3 / 4, 1, 4 / 3, 3 / 2, 2, 5 / 2, 3] \<and>
   getRhythmicMultipliers 60 = getRhythmicMultipliers 120 \<and>
   getRhythmicMultipliers (-1) = [0.25, 0.5, 0.75, 1.0, 1.25, 1.5, 2.0]"
  using getRhythmicMultipliers_values [of 120] getRhythmicMultipliers_values [of 60]
    getRhythmicMultipliers_values [of "-1"]
  by simp

text \<open>
  C3 as stated fails at tempo = 0: the result holds 1.25, which is not in the set (read
  with 0.667 and 1.333 either as written or as 2/3 and 4/3), and it is not the sequence
  returned for tempo = 120.
\<close>

theorem getRhythmicMultipliers_counterexample:
  "\<not> (set (getRhythmicMultipliers 0)
        \<subseteq> {0.25, 0.5, 0.667, 2 / 3, 0.75, 1, 1.333, 4 / 3, 1.5, 2, 2.5, 3}) \<and>
   getRhythmicMultipliers 0 \<noteq> getRhythmicMultipliers 120"
  by (simp add: getRhythmicMultipliers_def rhythmicRatios_def)







section \<open>Properties of the rounding to doubles\<close>

lemma expo_up_bounds:
  "1 \<le> x \<Longrightarrow> 2 powi expo_up x \<le> x \<and> x < 2 powi (expo_up x + 1)"
proof (induction x rule: expo_up.induct)
  case (1 x)
  show ?case
  proof (cases "2 \<le> x")
    case True
    then have "1 \<le> x / 2" by simp
    from "1.IH" [OF True this]
    have IH: "2 powi expo_up (x / 2) \<le> x / 2" "x / 2 < 2 powi (expo_up (x / 2) + 1)"
      by simp_all
    have e: "expo_up x = expo_up (x / 2) + 1"
      using True by (subst expo_up.simps) simp
    have step: "(2::real) powi (k + 1) = 2 powi k * 2" for k
      by (simp add: power_int_add)
    from IH show ?thesis
      unfolding e step by simp
  next
    case False
    then have "expo_up x = 0"
      by (subst expo_up.simps) simp
    with False "1.prems" show ?thesis by simp
  qed
qed

lemma expo_down_bounds:
  "0 < x \<Longrightarrow> x < 1 \<Longrightarrow> 2 powi expo_down x \<le> x \<and> x < 2 powi (expo_down x + 1)"
proof (induction x rule: expo_down.induct)
  case (1 x)
  have e: "expo_down x = expo_down (x * 2) - 1"
    using "1.prems" by (subst expo_down.simps) simp
  have step: "(2::real) powi (k + 1) = 2 powi k * 2" for k
    by (simp add: power_int_add)
  show ?case
  proof (cases "x * 2 < 1")
    case True
    have "0 < x * 2" using "1.prems" by simp
    from "1.IH" [OF _ this True] "1.prems"
    have IH: "2 powi expo_down (x * 2) \<le> x * 2" "x * 2 < 2 powi (expo_down (x * 2) + 1)"
      by simp_all
    have "2 powi expo_down (x * 2) = 2 powi (expo_down (x * 2) - 1 + 1)"
      by simp
    also have "\<dots> = 2 powi (expo_down (x * 2) - 1) * (2::real)"
      by (rule step)
    finally have a: "2 powi (expo_down (x * 2) - 1) * (2::real) \<le> x * 2"
      using IH(1) by simp
    have b: "x * 2 < 2 powi (expo_down (x * 2) - 1 + 1) * 2"
      using IH(2) unfolding step [of "expo_down (x * 2)"] by simp
    from a b show ?thesis
      unfolding e by simp
  next
    case False
    then have "expo_down (x * 2) = 0"
      by (subst expo_down.simps) simp
    then have "expo_down x = - 1"
      using e by simp
    moreover have "(2::real) powi (- 1) = 1 / 2"
      by (simp add: power_int_minus_divide)
    ultimately show ?thesis
      using False "1.prems" by simp
  qed
qed

lemma expo_bounds:
  assumes "x \<noteq> 0"
  shows "2 powi expo x \<le> \<bar>x\<bar>" and "\<bar>x\<bar> < 2 powi (expo x + 1)"
proof -
  have "2 powi expo x \<le> \<bar>x\<bar> \<and> \<bar>x\<bar> < 2 powi (expo x + 1)"
  proof (cases "1 \<le> \<bar>x\<bar>")
    case True
    with expo_up_bounds [OF True] show ?thesis
      by (simp add: expo_def)
  next
    case False
    then have "\<bar>x\<bar> < 1" by simp
    moreover have "0 < \<bar>x\<bar>" using assms by simp
    ultimately show ?thesis
      using expo_down_bounds [of "\<bar>x\<bar>"] False by (simp add: expo_def)
  qed
  then show "2 powi expo x \<le> \<bar>x\<bar>" and "\<bar>x\<bar> < 2 powi (expo x + 1)"
    by simp_all
qed

lemma expo_mono:
  assumes "x \<noteq> 0" and "\<bar>x\<bar> \<le> \<bar>y\<bar>"
  shows "expo x \<le> expo y"
proof (rule ccontr)
  assume "\<not> expo x \<le> expo y"
  then have "expo y + 1 \<le> expo x" by simp
  then have "(2::real) powi (expo y + 1) \<le> 2 powi expo x"
    by (intro power_int_increasing) simp_all
  moreover have "y \<noteq> 0" using assms by auto
  ultimately show False
    using expo_bounds(1) [OF assms(1)] expo_bounds(2) [OF \<open>y \<noteq> 0\<close>] assms(2) by linarith
qed

lemma round_even_of_int: "round_even (of_int m) = m"
  by (simp add: round_even_def)

lemma round_even_floor: "\<lfloor>x\<rfloor> \<le> round_even x" "round_even x \<le> \<lfloor>x\<rfloor> + 1"
  by (simp_all add: round_even_def Let_def)

lemma round_even_mono:
  assumes "x \<le> y"
  shows "round_even x \<le> round_even y"
proof (cases "\<lfloor>x\<rfloor> = \<lfloor>y\<rfloor>")
  case True
  with assms show ?thesis
    by (simp add: round_even_def Let_def)
next
  case False
  with assms have "\<lfloor>x\<rfloor> + 1 \<le> \<lfloor>y\<rfloor>"
    using floor_mono [OF assms] by linarith
  with round_even_floor(2) [of x] round_even_floor(1) [of y] show ?thesis
    by linarith
qed

lemma fl_zero: "fl 0 = 0"
  by (simp add: fl_def)

lemma fl_minus: "fl (- x) = - fl x"
  by (simp add: fl_def expo_def Let_def)

lemma fl_pos_bounds:
  assumes "0 < x"
  shows "2 powi expo x \<le> fl x" and "fl x \<le> 2 powi (expo x + 1)"
proof -
  define u :: real where "u = 2 powi (expo x - 52)"
  have u: "0 < u" by (simp add: u_def)
  have x0: "x \<noteq> 0" using assms by simp
  have split: "(2::real) powi (k + (expo x - 52)) = 2 powi k * u" for k
    unfolding u_def by (rule power_int_add) simp
  have lo_eq: "2 powi expo x = 2 ^ 52 * u"
    using split [of 52] by simp
  have hi_eq: "2 powi (expo x + 1) = 2 ^ 53 * u"
    using split [of 53] by (simp add: add.commute)
  have "2 ^ 52 * u \<le> x" and "x < 2 ^ 53 * u"
    using expo_bounds [OF x0] assms lo_eq hi_eq by simp_all
  then have q: "2 ^ 52 \<le> x / u" "x / u \<le> 2 ^ 53"
    using u by (simp_all add: field_simps)
  have "round_even (of_int (2 ^ 52)) \<le> round_even (x / u)"
    by (rule round_even_mono) (use q(1) in simp)
  then have r1: "2 ^ 52 \<le> round_even (x / u)"
    by (simp only: round_even_of_int)
  have "round_even (x / u) \<le> round_even (of_int (2 ^ 53))"
    by (rule round_even_mono) (use q(2) in simp)
  then have r2: "round_even (x / u) \<le> 2 ^ 53"
    by (simp only: round_even_of_int)
  have f: "fl x = of_int (round_even (x / u)) * u"
    using assms by (simp add: fl_def Let_def u_def)
  have "(2 ^ 52 :: real) \<le> of_int (round_even (x / u))"
    using r1 by (metis of_int_le_iff of_int_numeral of_int_power)
  then show "2 powi expo x \<le> fl x"
    unfolding lo_eq f using u by simp
  have "of_int (round_even (x / u)) \<le> (2 ^ 53 :: real)"
    using r2 by (metis of_int_le_iff of_int_numeral of_int_power)
  then show "fl x \<le> 2 powi (expo x + 1)"
    unfolding hi_eq f using u by simp
qed

lemma fl_pos: "0 < x \<Longrightarrow> 0 < fl x"
  using fl_pos_bounds(1) [of x] zero_less_power_int [of "2::real" "expo x"] by linarith

lemma fl_mono_pos:
  assumes "0 < x" and "x \<le> y"
  shows "fl x \<le> fl y"
proof (cases "expo x = expo y")
  case True
  define u :: real where "u = 2 powi (expo x - 52)"
  have u: "0 < u" by (simp add: u_def)
  have "x / u \<le> y / u"
    using assms(2) u by (simp add: divide_right_mono)
  then have "round_even (x / u) \<le> round_even (y / u)"
    by (rule round_even_mono)
  then have "(of_int (round_even (x / u)) :: real) * u \<le> of_int (round_even (y / u)) * u"
    using u by simp
  then show ?thesis
    using assms True by (simp add: fl_def Let_def u_def)
next
  case False
  have "expo x \<le> expo y"
    using assms by (intro expo_mono) simp_all
  with False have "expo x + 1 \<le> expo y" by simp
  then have "(2::real) powi (expo x + 1) \<le> 2 powi expo y"
    by (intro power_int_increasing) simp_all
  moreover have "0 < y" using assms by simp
  ultimately show ?thesis
    using fl_pos_bounds(2) [OF assms(1)] fl_pos_bounds(1) [OF \<open>0 < y\<close>] by linarith
qed

lemma fl_mono:
  assumes "x \<le> y"
  shows "fl x \<le> fl y"
proof -
  consider "0 < x" | "x = 0" "y = 0" | "x = 0" "0 < y" | "x < 0" "y < 0" | "x < 0" "y = 0"
    | "x < 0" "0 < y"
    using assms by linarith
  then show ?thesis
  proof cases
    case 1
    then show ?thesis using assms by (rule fl_mono_pos)
  next
    case 2
    then show ?thesis by simp
  next
    case 3
    then show ?thesis using fl_pos [of y] by (simp add: fl_zero)
  next
    case 4
    then have "fl (- y) \<le> fl (- x)"
      using assms by (intro fl_mono_pos) simp_all
    then show ?thesis by (simp add: fl_minus)
  next
    case 5
    then have "0 < fl (- x)" by (intro fl_pos) simp
    with 5 show ?thesis by (simp add: fl_minus fl_zero)
  next
    case 6
    then have "0 < fl (- x)" and "0 < fl y" by (simp_all add: fl_pos)
    then show ?thesis by (simp add: fl_minus)
  qed
qed

text \<open>The doubles that the proofs below meet, by computation.\<close>

lemma fl_values:
  "fl 1 = 1" "fl 2 = 2" "fl 50 = 50" "fl 500 = 500" "fl 5 = 5"
  "fl (1 / 2) = 1 / 2" "fl (1 / 10) = 3602879701896397 / 36028797018963968"
  by (simp_all add: fl_def expo_def expo_up.simps expo_down.simps round_even_def Let_def)

section \<open>Properties of the speed mapper\<close>

lemma calculateOptimalSpeed_low:
  assumes "tempo \<le> 120"
  shows "calculateOptimalSpeed tempo = 0.5"
proof -
  have "tempo / 60 \<le> 2" using assms by simp
  then have "fl (tempo / 60) \<le> 2"
    using fl_mono [of "tempo / 60" 2] by (simp add: fl_values)
  then have "fl (tempo / 60) * 0.25 \<le> 1 / 2" by simp
  then have "fl (fl (tempo / 60) * 0.25) \<le> 1 / 2"
    using fl_mono [of "fl (tempo / 60) * 0.25" "1 / 2"] by (simp add: fl_values)
  then have "max 0.5 (min 5.0 (fl (fl (tempo / 60) * 0.25))) = 1 / 2"
    by (simp add: max_def min_def)
  then show ?thesis
    by (simp add: calculateOptimalSpeed_def Let_def Math_round_def fl_values)
qed

lemma calculateOptimalSpeed_120: "calculateOptimalSpeed 120 = 0.5"
  by (rule calculateOptimalSpeed_low) simp

text \<open>The doubles in the speeds computed below, by computation.\<close>

lemma fl_speed_values:
  "fl 3 = 3" "fl (3 / 4) = 3 / 4" "fl 75 = 75"
  "fl (23 / 10) = 2589569785738035 / 1125899906842624"
  "fl (21 / 10) = 4728779608739021 / 2251799813685248"
  "fl (57 / 100) = 5134103575202365 / 9007199254740992"
  "fl (53 / 100) = 2386907802506363 / 4503599627370496"
  "fl (4728779608739021 / 9007199254740992) = 4728779608739021 / 9007199254740992"
  "fl (2589569785738035 / 4503599627370496) = 2589569785738035 / 4503599627370496"
  "fl (118219490218475525 / 2251799813685248) = 105 / 2"
  "fl (64739244643450875 / 1125899906842624) = 8092405580431359 / 140737488355328"
  by (simp_all add: fl_def expo_def expo_up.simps expo_down.simps round_even_def Let_def)

text \<open>
  C7, as the code has it. \<^verbatim>\<open>calculateOptimalSpeed\<close> computes the clamp of
  \<open>bpm / 60 * 0.25\<close> to [0.5, 5.0] in double arithmetic, and returns the double nearest
  to \<open>k / 100\<close>, where \<open>k\<close> is the integer nearest (a tie going up) to the computed
  product of the clamped value and 100. It is a function of bpm alone, defined for every
  bpm, and its value is in [0.5, 5.0], in particular for bpm in [60, 200].
\<close>

theorem calculateOptimalSpeed_double:
  "calculateOptimalSpeed tempo =
     fl (of_int (round (fl (spec_clamp (fl (fl (tempo / 60) * 0.25)) 0.5 5.0 * 100))) / 100) \<and>
   50 \<le> round (fl (spec_clamp (fl (fl (tempo / 60) * 0.25)) 0.5 5.0 * 100)) \<and>
   round (fl (spec_clamp (fl (fl (tempo / 60) * 0.25)) 0.5 5.0 * 100)) \<le> 500 \<and>
   (60 \<le> tempo \<and> tempo \<le> 200 \<longrightarrow>
      0.5 \<le> calculateOptimalSpeed tempo \<and> calculateOptimalSpeed tempo \<le> 5.0) \<and>
   0.5 \<le> calculateOptimalSpeed tempo \<and> calculateOptimalSpeed tempo \<le> 5.0"
proof -
  define c where "c = spec_clamp (fl (fl (tempo / 60) * 0.25)) 0.5 5.0"
  define k where "k = round (fl (c * 100))"
  have c_eq: "max 0.5 (min 5.0 (fl (fl (tempo / 60) * 0.25))) = c"
    by (simp add: c_def spec_clamp_def max_def min_def)
  have val: "calculateOptimalSpeed tempo = fl (of_int k / 100)"
    using c_eq by (simp add: calculateOptimalSpeed_def Math_round_def Let_def k_def round_def)
  have c_lo: "1 / 2 \<le> c" and c_hi: "c \<le> 5"
    by (simp_all add: c_def spec_clamp_def)
  have "fl 50 \<le> fl (c * 100)"
    by (rule fl_mono) (use c_lo in simp)
  then have p_lo: "50 \<le> fl (c * 100)"
    by (simp add: fl_values)
  have "fl (c * 100) \<le> fl 500"
    by (rule fl_mono) (use c_hi in simp)
  then have p_hi: "fl (c * 100) \<le> 500"
    by (simp add: fl_values)
  have k_lo: "50 \<le> k"
    using p_lo unfolding k_def round_def by (simp add: le_floor_iff)
  have k_hi: "k \<le> 500"
    using p_hi unfolding k_def round_def by (simp add: floor_le_iff)
  have "(1 / 2 :: real) \<le> of_int k / 100"
    using k_lo by simp
  then have "fl (1 / 2) \<le> fl (of_int k / 100)"
    by (rule fl_mono)
  then have lo: "1 / 2 \<le> calculateOptimalSpeed tempo"
    by (simp add: val fl_values)
  have "of_int k / 100 \<le> (5::real)"
    using k_hi by simp
  then have "fl (of_int k / 100) \<le> fl 5"
    by (rule fl_mono)
  then have hi: "calculateOptimalSpeed tempo \<le> 5"
    by (simp add: val fl_values)
  from val k_lo k_hi lo hi show ?thesis
    unfolding k_def c_def by simp
qed

theorem calculateOptimalSpeed_double_witness:
  "(60::real) \<le> 180 \<and> (180::real) \<le> 200 \<and>
   0.5 \<le> calculateOptimalSpeed 180 \<and> calculateOptimalSpeed 180 \<le> 5.0 \<and>
   calculateOptimalSpeed 180 = 0.75"
proof -
  have "calculateOptimalSpeed 180 = 0.75"
    by (simp add: calculateOptimalSpeed_def Math_round_def Let_def fl_values fl_speed_values)
  with calculateOptimalSpeed_double [of 180] show ?thesis by simp
qed

text \<open>
  C7 as stated fails at bpm = 138. The exact value \<open>138 / 60 * 0.25\<close> is 0.575, which
  rounds to 0.58; the double computed for it lies below 0.575, and the function returns
  the double 0.57. At bpm = 126, where the exact value 0.525 is such a tie too, it
  returns the double 0.53.
\<close>

theorem calculateOptimalSpeed_counterexample:
  "calculateOptimalSpeed 138 = fl 0.57 \<and> spec_mapSpeed 138 = 0.58 \<and> fl 0.57 < 0.575 \<and>
   spec_clamp ((138 / 60) * 0.25) 0.5 5.0 = 0.575 \<and>
   calculateOptimalSpeed 126 = fl 0.53 \<and> spec_mapSpeed 126 = 0.53 \<and>
   spec_clamp ((126 / 60) * 0.25) 0.5 5.0 = 0.525"
proof -
  have code_138: "calculateOptimalSpeed 138 = fl 0.57"
    by (simp add: calculateOptimalSpeed_def Math_round_def Let_def fl_values fl_speed_values)
  have code_126: "calculateOptimalSpeed 126 = fl 0.53"
    by (simp add: calculateOptimalSpeed_def Math_round_def Let_def fl_values fl_speed_values)
  have spec_138: "spec_mapSpeed 138 = 0.58" and spec_126: "spec_mapSpeed 126 = 0.53"
    by (simp_all add: spec_mapSpeed_def spec_round_2dp_def spec_clamp_def round_def)
  have below: "fl 0.57 < 0.575"
    by (simp add: fl_speed_values)
  have exact_138: "spec_clamp ((138 / 60) * 0.25) 0.5 5.0 = 0.575"
    and exact_126: "spec_clamp ((126 / 60) * 0.25) 0.5 5.0 = 0.525"
    by (simp_all add: spec_clamp_def)
  from code_138 spec_138 below exact_138 code_126 spec_126 exact_126 show ?thesis
    by blast
qed

section \<open>Properties of the tempo estimator\<close>

lemma energy_loop_returns:
  assumes "0 < hopSize"
  shows "\<exists>energy'. energy_loop cd windowSize hopSize i energy = Some energy'"
  using assms
proof (induction "length cd - i" arbitrary: i energy rule: less_induct)
  case less
  show ?case
  proof (cases "int i < int (length cd) - int windowSize")
    case True
    then have "length cd - (i + hopSize) < length cd - i"
      using less.prems by linarith
    from less.hyps [OF this less.prems]
    obtain e where
      "energy_loop cd windowSize hopSize (i + hopSize)
         (energy @ [fl (window_sum cd i windowSize / real windowSize)]) = Some e"
      by blast
    with True show ?thesis
      by (subst energy_loop.simps) simp
  next
    case False
    then show ?thesis
      by (subst energy_loop.simps) simp
  qed
qed

text \<open>
  With a hop of zero the loop does not return once it has entered a window: this is why
  the results below ask for a sample rate of at least 20 Hz, which every rate of the
  platform is.
\<close>

lemma energy_loop_zero_hop:
  assumes "energy_loop cd w h i e = Some y"
  shows "\<not> (h = 0 \<and> int i < int (length cd) - int w)"
proof (rule energy_loop.raw_induct
    [where P = "\<lambda>cd w h i e y. \<not> (h = 0 \<and> int i < int (length cd) - int w)", OF _ assms])
  fix f cd w h i e y
  assume IH: "\<And>cd w h i e y. f cd w h i e = Some y \<Longrightarrow>
                \<not> (h = 0 \<and> int i < int (length cd) - int w)"
    and body: "(if int i < int (length cd) - int w
                then f cd w h (i + h) (e @ [fl (window_sum cd i w / real w)])
                else Some e) = Some y"
  show "\<not> (h = 0 \<and> int i < int (length cd) - int w)"
  proof
    assume a: "h = 0 \<and> int i < int (length cd) - int w"
    with body have "f cd w h (i + h) (e @ [fl (window_sum cd i w / real w)]) = Some y"
      by simp
    from IH [OF this] a show False
      by simp
  qed
qed

lemma energy_loop_diverges:
  "int i < int (length cd) - int w \<Longrightarrow> energy_loop cd w 0 i e = None"
  using energy_loop_zero_hop [of cd w 0 i e] by (cases "energy_loop cd w 0 i e") auto

lemma fl_small_values:
  "fl (10 * fl 0.1) = 1" "fl (1 / 2) = 1 / 2"
  by (simp_all add: fl_def expo_def expo_up.simps expo_down.simps round_even_def Let_def)

lemma analyzeFile_zero_hop:
  "analyzeFile argLimit ready (Some \<lparr>channel0 = [0, 0, 0], sampleRate = 10\<rparr>) = None"
  by (simp add: analyzeFile_def detectBPM_def ready_def energy_loop_diverges Let_def
      fl_small_values)

lemma f32_zero: "f32 0 = 0"
  by (simp add: f32_def)

lemma fold_silent:
  "\<forall>j \<in> set js. cd ! j = (0::real) \<Longrightarrow>
   fold (\<lambda>j sum. fl (sum + fl (f32 (cd ! j) * f32 (cd ! j)))) js 0 = 0"
  by (induction js) (simp_all add: fl_zero f32_zero)

lemma window_sum_silent:
  assumes "\<forall>x \<in> set cd. x = 0" and "i + w \<le> length cd"
  shows "window_sum cd i w = 0"
proof -
  have "\<forall>j \<in> set [i ..< i + w]. cd ! j = 0"
    using assms by (auto simp: nth_mem)
  then show ?thesis
    unfolding window_sum_def by (rule fold_silent)
qed

lemma energy_loop_silent:
  assumes "0 < hopSize" and "\<forall>x \<in> set cd. x = 0" and "\<forall>e \<in> set energy. e = 0"
  shows "\<exists>energy'. energy_loop cd windowSize hopSize i energy = Some energy' \<and>
           (\<forall>e \<in> set energy'. e = 0)"
  using assms
proof (induction "length cd - i" arbitrary: i energy rule: less_induct)
  case less
  show ?case
  proof (cases "int i < int (length cd) - int windowSize")
    case True
    then have dec: "length cd - (i + hopSize) < length cd - i"
      using less.prems(1) by linarith
    from True have "i + windowSize \<le> length cd"
      by linarith
    with less.prems(2) have "window_sum cd i windowSize = 0"
      by (rule window_sum_silent)
    with less.prems(3)
    have z: "\<forall>e \<in> set (energy @ [fl (window_sum cd i windowSize / real windowSize)]). e = 0"
      by (simp add: fl_zero)
    from less.hyps [OF dec less.prems(1) less.prems(2) z]
    obtain e where
      "energy_loop cd windowSize hopSize (i + hopSize)
         (energy @ [fl (window_sum cd i windowSize / real windowSize)]) = Some e"
      "\<forall>x \<in> set e. x = 0"
      by blast
    with True show ?thesis
      by (subst energy_loop.simps) simp
  next
    case False
    with less.prems(3) show ?thesis
      by (subst energy_loop.simps) simp
  qed
qed

lemma peaks_loop_flat:
  "\<forall>i \<in> set is. \<not> (energy ! i > energy ! (i - 1) \<and> energy ! i > energy ! (i + 1)) \<Longrightarrow>
   peaks_loop argLimit energy hopSize rate is peaks = Inr peaks"
  by (induction "is") auto

lemma peaks_loop_error:
  "peaks_loop argLimit energy hopSize rate is peaks = Inl e \<Longrightarrow> e = RangeError"
proof (induction "is" arbitrary: peaks)
  case Nil
  then show ?case by simp
next
  case (Cons i rest)
  then show ?case
    by (auto simp: Math_max_def split: if_splits sum.splits list.splits)
qed

lemma find_peaks_silent:
  assumes "\<forall>e \<in> set energy. e = 0"
  shows "find_peaks argLimit energy hopSize rate = Inr []"
proof -
  have "\<not> (energy ! i > energy ! (i - 1) \<and> energy ! i > energy ! (i + 1))"
    if "i \<in> set [1 ..< length energy - 1]" for i
  proof -
    from that have "i < length energy" and "i - 1 < length energy"
      by auto
    with assms have "energy ! i = 0" and "energy ! (i - 1) = 0"
      by (auto simp: nth_mem)
    then show ?thesis
      by simp
  qed
  then show ?thesis
    unfolding find_peaks_def by (intro peaks_loop_flat) blast
qed

lemma hopSize_pos:
  assumes "20 \<le> r"
  shows "0 < nat \<lfloor>fl (real (nat \<lfloor>fl (real r * fl 0.1)\<rfloor>) / 2)\<rfloor>"
proof -
  have "(1 / 10 :: real) \<le> fl 0.1"
    by (simp add: fl_values)
  moreover have "20 \<le> real r"
    using assms by simp
  ultimately have "20 * (1 / 10) \<le> real r * fl 0.1"
    by (intro mult_mono) simp_all
  then have "2 \<le> real r * fl 0.1"
    by simp
  then have "fl 2 \<le> fl (real r * fl 0.1)"
    by (rule fl_mono)
  then have "2 \<le> \<lfloor>fl (real r * fl 0.1)\<rfloor>"
    by (simp add: fl_values le_floor_iff)
  then have "1 \<le> real (nat \<lfloor>fl (real r * fl 0.1)\<rfloor>) / 2"
    by simp
  then have "fl 1 \<le> fl (real (nat \<lfloor>fl (real r * fl 0.1)\<rfloor>) / 2)"
    by (rule fl_mono)
  then have "1 \<le> \<lfloor>fl (real (nat \<lfloor>fl (real r * fl 0.1)\<rfloor>) / 2)\<rfloor>"
    by (simp add: fl_values le_floor_iff)
  then show ?thesis
    by simp
qed

lemma detectBPM_silent:
  assumes "audioContext p" and "audioBuffer p = Some buffer" and "20 \<le> sampleRate buffer"
    and "\<forall>x \<in> set (channel0 buffer). x = 0"
  shows "detectBPM argLimit p = Some (Inr 120)"
proof -
  define w where "w = nat \<lfloor>fl (real (sampleRate buffer) * fl 0.1)\<rfloor>"
  define h where "h = nat \<lfloor>fl (real w / 2)\<rfloor>"
  have "0 < h"
    unfolding h_def w_def using assms(3) by (rule hopSize_pos)
  from energy_loop_silent [OF this assms(4), of "[]" w 0]
  obtain energy where e: "energy_loop (channel0 buffer) w h 0 [] = Some energy"
    "\<forall>x \<in> set energy. x = 0"
    by auto
  have "find_peaks argLimit energy h (sampleRate buffer) = Inr []"
    using e(2) by (rule find_peaks_silent)
  with assms(1) assms(2) e(1) show ?thesis
    unfolding detectBPM_def Let_def h_def w_def
    by (simp add: peak_intervals_def)
qed

lemma detectBPM_returns:
  assumes "\<forall>buffer. audioBuffer p = Some buffer \<longrightarrow> 20 \<le> sampleRate buffer"
  shows "\<exists>r. detectBPM argLimit p = Some r \<and>
           (r = Inl RangeError \<or> (\<exists>b. r = Inr b \<and> 60 \<le> b \<and> b \<le> 200))"
proof (cases "audioBuffer p")
  case None
  then show ?thesis
    by (simp add: detectBPM_def)
next
  case (Some buffer)
  define w where "w = nat \<lfloor>fl (real (sampleRate buffer) * fl 0.1)\<rfloor>"
  define h where "h = nat \<lfloor>fl (real w / 2)\<rfloor>"
  have "20 \<le> sampleRate buffer"
    using assms Some by simp
  then have "0 < h"
    unfolding h_def w_def by (rule hopSize_pos)
  from energy_loop_returns [OF this, of "channel0 buffer" w 0 "[]"]
  obtain energy where e: "energy_loop (channel0 buffer) w h 0 [] = Some energy"
    by blast
  show ?thesis
  proof (cases "find_peaks argLimit energy h (sampleRate buffer)")
    case (Inl err)
    then have "err = RangeError"
      unfolding find_peaks_def by (rule peaks_loop_error)
    with Inl Some e show ?thesis
      unfolding detectBPM_def Let_def h_def w_def by simp
  next
    case (Inr peaks)
    with Some e show ?thesis
      unfolding detectBPM_def Let_def h_def w_def by simp
  qed
qed

lemma analyzeFile_silent_value:
  assumes "audioContext p" and "20 \<le> sampleRate buffer"
    and "\<forall>x \<in> set (channel0 buffer). x = 0"
  shows "analyzeFile argLimit p (Some buffer) =
           Some (Inr \<lparr>bpm = 120, confidence = 0.85, optimalSpeed = 0.5\<rparr>,
                 p\<lparr>audioBuffer := Some buffer\<rparr>)"
proof -
  have "detectBPM argLimit (p\<lparr>audioBuffer := Some buffer\<rparr>) = Some (Inr 120)"
    using assms by (intro detectBPM_silent [where buffer = buffer]) simp_all
  with assms(1) show ?thesis
    by (simp add: analyzeFile_def calculateOptimalSpeed_120)
qed

text \<open>The doubles in the analysis of the two clicks, by computation.\<close>

lemma fl_clicks_values:
  "fl 20 = 20" "fl 80 = 80" "fl (1 / 4) = 1 / 4" "fl (3 / 4) = 3 / 4"
  "fl (18014398509481985 / 9007199254740992) = 2"
  "fl (3 / 10) = 5404319552844595 / 18014398509481984"
  "fl (5404319552844595 / 18014398509481984) = 5404319552844595 / 18014398509481984"
  by (simp_all add: fl_def expo_def expo_up.simps expo_down.simps round_even_def Let_def)

lemma f32_one: "f32 1 = 1"
  by (simp add: f32_def expo_def expo_up.simps round_even_def Let_def)

lemma energy_clicks:
  "energy_loop (channel0 clicks) 2 1 0 [] =
     Some [0, 0, 0, 0, 1 / 2, 1, 1 / 2, 0, 0, 0, 0, 0, 0, 0, 0, 0, 0, 0, 0, 1 / 2, 1, 1 / 2]"
  by (simp add: clicks_def energy_loop.simps window_sum_def upt_rec fl_zero fl_values
      f32_zero f32_one)

lemma detectBPM_peaks:
  assumes "audioContext p" and "audioBuffer p = Some buffer"
    and "nat \<lfloor>fl (real (sampleRate buffer) * fl 0.1)\<rfloor> = w"
    and "nat \<lfloor>fl (real w / 2)\<rfloor> = h"
    and "energy_loop (channel0 buffer) w h 0 [] = Some energy"
  shows "detectBPM argLimit p =
     (case find_peaks argLimit energy h (sampleRate buffer) of
        Inl e \<Rightarrow> Some (Inl e)
      | Inr peaks \<Rightarrow>
          let intervals = peak_intervals peaks
          in if length intervals = 0 then Some (Inr 120)
             else
               let avgInterval =
                     fl (foldl (\<lambda>a b. fl (a + b)) 0 intervals / real (length intervals))
               in if avgInterval = 0 then Some (Inr 200)
                  else Some (Inr (max 60 (min 200 (Math_round (fl (60 / avgInterval)))))))"
  using assms unfolding detectBPM_def Let_def by simp

lemma clicks_windows:
  "nat \<lfloor>fl (real (sampleRate clicks) * fl 0.1)\<rfloor> = 2" "nat \<lfloor>fl (real (2::nat) / 2)\<rfloor> = 1"
  by (simp_all add: clicks_def fl_values fl_clicks_values)

lemma detectBPM_clicks:
  "detectBPM 65536 (ready\<lparr>audioBuffer := Some clicks\<rparr>) = Some (Inr 80)"
proof -
  have p: "find_peaks 65536
      [0, 0, 0, 0, 1 / 2, 1, 1 / 2, 0, 0, 0, 0, 0, 0, 0, 0, 0, 0, 0, 0, 1 / 2, 1, 1 / 2]
      1 (sampleRate clicks) = Inr [1 / 4, 1]"
    by (simp add: find_peaks_def Math_max_def clicks_def upt_rec fl_values fl_clicks_values)
  have i: "peak_intervals [1 / 4, 1] = [3 / 4]"
    by (simp add: peak_intervals_def upt_rec fl_clicks_values)
  have "audioContext (ready\<lparr>audioBuffer := Some clicks\<rparr>)"
    and "audioBuffer (ready\<lparr>audioBuffer := Some clicks\<rparr>) = Some clicks"
    by (simp_all add: ready_def)
  from detectBPM_peaks [OF this clicks_windows energy_clicks, of 65536] show ?thesis
    unfolding p by (simp add: i Math_round_def fl_clicks_values Let_def)
qed

lemma detectBPM_clicks_limit:
  "detectBPM 8 (ready\<lparr>audioBuffer := Some clicks\<rparr>) = Some (Inl RangeError)"
proof -
  have p: "find_peaks 8
      [0, 0, 0, 0, 1 / 2, 1, 1 / 2, 0, 0, 0, 0, 0, 0, 0, 0, 0, 0, 0, 0, 1 / 2, 1, 1 / 2]
      1 (sampleRate clicks) = Inl RangeError"
    by (simp add: find_peaks_def Math_max_def clicks_def upt_rec)
  have "audioContext (ready\<lparr>audioBuffer := Some clicks\<rparr>)"
    and "audioBuffer (ready\<lparr>audioBuffer := Some clicks\<rparr>) = Some clicks"
    by (simp_all add: ready_def)
  from detectBPM_peaks [OF this clicks_windows energy_clicks, of 8] show ?thesis
    unfolding p by simp
qed

text \<open>
  On the repeating samples the sums of the squares, taken in three different orders,
  differ in the last bit: every third energy is above its neighbours, the peaks are
  0.1 s apart, and the bpm is the clamp of 600.
\<close>

lemma f32_steps_values:
  "f32 (1 / 10) = 13421773 / 134217728" "f32 (9 / 10) = 7549747 / 8388608"
  by (simp_all add: f32_def expo_def expo_up.simps expo_down.simps round_even_def Let_def)

lemma fl_steps_values:
  "fl (54043195528445955 / 18014398509481984) = 3"
  "fl (3 / 2) = 3 / 2"
  "fl (180143990463529 / 18014398509481984) = 180143990463529 / 18014398509481984"
  "fl (180143990463529 / 9007199254740992) = 180143990463529 / 9007199254740992"
  "fl (56998679764009 / 70368744177664) = 56998679764009 / 70368744177664"
  "fl (7475975000256681 / 9007199254740992) = 7475975000256681 / 9007199254740992"
  "fl (2491991666752227 / 9007199254740992) = 2491991666752227 / 9007199254740992"
  "fl (14771806010049833 / 18014398509481984) = 1846475751256229 / 2251799813685248"
  "fl (14951950000513361 / 18014398509481984) = 934496875032085 / 1125899906842624"
  "fl (934496875032085 / 3377699720527872) = 4983983333504453 / 18014398509481984"
  "fl (13467519290154852417422901163065 / 162259276829213363391578010288128) = 5980780000205345 / 72057594037927936"
  "fl 3 = 3"
  "fl 6 = 6"
  "fl 9 = 9"
  "fl (1 / 5) = 3602879701896397 / 18014398509481984"
  "fl (3602879701896397 / 36028797018963968) = 3602879701896397 / 36028797018963968"
  "fl (900719925474099 / 9007199254740992) = 900719925474099 / 9007199254740992"
  "fl (7205759403792793 / 36028797018963968) = 7205759403792793 / 36028797018963968"
  "fl (7205759403792793 / 72057594037927936) = 7205759403792793 / 72057594037927936"
  "fl (4323455642275676160 / 7205759403792793) = 600"
  by (simp_all add: fl_def expo_def expo_up.simps expo_down.simps round_even_def Let_def)

lemma steps_windows:
  "nat \<lfloor>fl (real (sampleRate steps) * fl 0.1)\<rfloor> = 3" "nat \<lfloor>fl (real (3::nat) / 2)\<rfloor> = 1"
  by (simp_all add: steps_def fl_values fl_steps_values)

lemma energy_steps:
  "energy_loop (channel0 steps) 3 1 0 [] =
     Some [2491991666752227 / 9007199254740992, 4983983333504453 / 18014398509481984,
       4983983333504453 / 18014398509481984, 2491991666752227 / 9007199254740992,
       4983983333504453 / 18014398509481984, 4983983333504453 / 18014398509481984,
       2491991666752227 / 9007199254740992, 4983983333504453 / 18014398509481984,
       4983983333504453 / 18014398509481984, 2491991666752227 / 9007199254740992,
       4983983333504453 / 18014398509481984, 4983983333504453 / 18014398509481984]"
  by (simp add: steps_def energy_loop.simps window_sum_def upt_rec fl_zero f32_steps_values
      fl_steps_values)

lemma detectBPM_steps:
  "detectBPM 65536 (ready\<lparr>audioBuffer := Some steps\<rparr>) = Some (Inr 200)"
proof -
  have p: "find_peaks 65536
      [2491991666752227 / 9007199254740992, 4983983333504453 / 18014398509481984,
      4983983333504453 / 18014398509481984, 2491991666752227 / 9007199254740992,
      4983983333504453 / 18014398509481984, 4983983333504453 / 18014398509481984,
      2491991666752227 / 9007199254740992, 4983983333504453 / 18014398509481984,
      4983983333504453 / 18014398509481984, 2491991666752227 / 9007199254740992,
      4983983333504453 / 18014398509481984, 4983983333504453 / 18014398509481984]
      1 (sampleRate steps) =
      Inr [3602879701896397 / 36028797018963968, 3602879701896397 / 18014398509481984,
           5404319552844595 / 18014398509481984]"
    by (simp add: find_peaks_def Math_max_def steps_def upt_rec fl_values fl_clicks_values
        fl_steps_values)
  have i: "peak_intervals
      [3602879701896397 / 36028797018963968, 3602879701896397 / 18014398509481984,
       5404319552844595 / 18014398509481984] =
      [3602879701896397 / 36028797018963968, 900719925474099 / 9007199254740992]"
    by (simp add: peak_intervals_def upt_rec fl_steps_values)
  have "audioContext (ready\<lparr>audioBuffer := Some steps\<rparr>)"
    and "audioBuffer (ready\<lparr>audioBuffer := Some steps\<rparr>) = Some steps"
    by (simp_all add: ready_def)
  from detectBPM_peaks [OF this steps_windows energy_steps, of 65536] show ?thesis
    unfolding p by (simp add: i Math_round_def fl_steps_values Let_def)
qed

text \<open>
  C1, as the code has it. For a buffer of zeros (decoded at 20 Hz or more, by a processor
  that has its audio context) \<^verbatim>\<open>detectBPM\<close> finds no peak and returns its default 120;
  \<^verbatim>\<open>analyzeFile\<close> then returns through its normal path: confidence 0.85 and the speed
  \<^verbatim>\<open>calculateOptimalSpeed(120)\<close>, which is 0.5.
\<close>

theorem analyzeFile_silent:
  assumes "audioContext p" and "20 \<le> sampleRate buffer"
    and "\<forall>x \<in> set (channel0 buffer). x = 0"
  shows "analyzeFile argLimit p (Some buffer) =
           Some (Inr \<lparr>bpm = 120, confidence = 0.85, optimalSpeed = 0.5\<rparr>,
                 p\<lparr>audioBuffer := Some buffer\<rparr>)"
  using assms by (rule analyzeFile_silent_value)

theorem analyzeFile_silent_witness:
  "audioContext ready \<and> 20 \<le> sampleRate silence_44100 \<and>
   set (channel0 silence_44100) = {0} \<and>
   analyzeFile 65536 ready (Some silence_44100) =
     Some (Inr \<lparr>bpm = 120, confidence = 0.85, optimalSpeed = 0.5\<rparr>,
           \<lparr>audioContext = True, audioBuffer = Some silence_44100\<rparr>)"
proof -
  have a: "audioContext ready"
    by (simp add: ready_def)
  have r: "20 \<le> sampleRate silence_44100"
    by (simp add: silence_44100_def)
  have z: "\<forall>x \<in> set (channel0 silence_44100). x = 0"
    by (simp add: silence_44100_def)
  have z': "set (channel0 silence_44100) = {0}"
    by (simp add: silence_44100_def)
  from analyzeFile_silent [OF a r z, of 65536] a r z' show ?thesis
    by (simp add: ready_def)
qed

text \<open>
  C1 as stated fails: for a quarter of a second of silence at 8 kHz the value returned is
  (120, 0.85, 0.5), not the values (120, 0.5, 2.0) of the \<^verbatim>\<open>catch\<close> branch.
\<close>

theorem analyzeFile_silent_counterexample:
  "map_option fst (analyzeFile 65536 ready (Some silence_8000)) =
     Some (Inr \<lparr>bpm = 120, confidence = 0.85, optimalSpeed = 0.5\<rparr>) \<and>
   map_option fst (analyzeFile 65536 ready (Some silence_8000)) \<noteq>
     Some (Inr \<lparr>bpm = 120, confidence = 0.5, optimalSpeed = 2.0\<rparr>)"
proof -
  have "analyzeFile 65536 ready (Some silence_8000) =
          Some (Inr \<lparr>bpm = 120, confidence = 0.85, optimalSpeed = 0.5\<rparr>,
                ready\<lparr>audioBuffer := Some silence_8000\<rparr>)"
    by (rule analyzeFile_silent_value) (simp_all add: ready_def silence_8000_def)
  then show ?thesis by simp
qed

text \<open>
  C2, as the code has it. A processor that has its audio context never throws from
  \<^verbatim>\<open>analyzeFile\<close> and always returns (for a buffer decoded at 20 Hz or more): the default
  values (120, 0.5, 2.0) when reading or decoding the file fails, and for a decoded buffer
  either a bpm in [60, 200] with confidence 0.85 and the speed computed from the bpm, or
  again the default values, namely when \<^verbatim>\<open>detectBPM\<close> throws inside the \<^verbatim>\<open>try\<close>, which
  it does with the RangeError of \<^verbatim>\<open>Math.max(...energy)\<close> on more windows than the engine
  takes arguments. A processor without audio context throws
  \<^verbatim>\<open>Error('Audio context not initialized')\<close>: the check stands before the \<^verbatim>\<open>try\<close>.
\<close>

theorem analyzeFile_outcomes:
  assumes "\<forall>buffer. decoded = Some buffer \<longrightarrow> 20 \<le> sampleRate buffer"
  shows "(audioContext p \<longrightarrow>
            (\<exists>r p'. analyzeFile argLimit p decoded = Some (Inr r, p') \<and>
               (decoded = None \<longrightarrow>
                  r = \<lparr>bpm = 120, confidence = 0.5, optimalSpeed = 2.0\<rparr>) \<and>
               (\<forall>buffer. decoded = Some buffer \<longrightarrow>
                  (detectBPM argLimit (p\<lparr>audioBuffer := Some buffer\<rparr>) = Some (Inl RangeError) \<and>
                   r = \<lparr>bpm = 120, confidence = 0.5, optimalSpeed = 2.0\<rparr>) \<or>
                  (detectBPM argLimit (p\<lparr>audioBuffer := Some buffer\<rparr>) = Some (Inr (bpm r)) \<and>
                   60 \<le> bpm r \<and> bpm r \<le> 200 \<and> confidence r = 0.85 \<and>
                   optimalSpeed r = calculateOptimalSpeed (real_of_int (bpm r)))))) \<and>
         (\<not> audioContext p \<longrightarrow>
            analyzeFile argLimit p decoded =
              Some (Inl (Error ''Audio context not initialized''), p))"
proof (cases decoded)
  case None
  then show ?thesis
    by (simp add: analyzeFile_def)
next
  case (Some buffer)
  have "\<forall>b. audioBuffer (p\<lparr>audioBuffer := Some buffer\<rparr>) = Some b \<longrightarrow> 20 \<le> sampleRate b"
    using assms Some by simp
  from detectBPM_returns [OF this, of argLimit] obtain d where d:
    "detectBPM argLimit (p\<lparr>audioBuffer := Some buffer\<rparr>) = Some d"
    "d = Inl RangeError \<or> (\<exists>b. d = Inr b \<and> 60 \<le> b \<and> b \<le> 200)"
    by blast
  from d(2) show ?thesis
  proof
    assume "d = Inl RangeError"
    with d(1) Some show ?thesis
      by (simp add: analyzeFile_def)
  next
    assume "\<exists>b. d = Inr b \<and> 60 \<le> b \<and> b \<le> 200"
    then obtain b where "d = Inr b" "60 \<le> b" "b \<le> 200"
      by blast
    with d(1) Some show ?thesis
      by (simp add: analyzeFile_def)
  qed
qed

theorem analyzeFile_outcomes_witness:
  "20 \<le> sampleRate clicks \<and> audioContext ready \<and> \<not> audioContext uninitialized \<and>
   map_option fst (analyzeFile 65536 ready (Some clicks)) =
     Some (Inr \<lparr>bpm = 80, confidence = 0.85, optimalSpeed = 0.5\<rparr>) \<and>
   map_option fst (analyzeFile 8 ready (Some clicks)) =
     Some (Inr \<lparr>bpm = 120, confidence = 0.5, optimalSpeed = 2.0\<rparr>) \<and>
   map_option fst (analyzeFile 65536 ready None) =
     Some (Inr \<lparr>bpm = 120, confidence = 0.5, optimalSpeed = 2.0\<rparr>) \<and>
   map_option fst (analyzeFile 65536 uninitialized (Some clicks)) =
     Some (Inl (Error ''Audio context not initialized''))"
proof -
  have h: "\<forall>buffer. Some clicks = Some buffer \<longrightarrow> 20 \<le> sampleRate buffer"
    by (simp add: clicks_def)
  have h': "\<forall>buffer. (None :: AudioBuffer option) = Some buffer \<longrightarrow> 20 \<le> sampleRate buffer"
    by simp
  have a: "audioContext ready" and u: "\<not> audioContext uninitialized"
    by (simp_all add: ready_def uninitialized_def)
  have s: "calculateOptimalSpeed 80 = 0.5"
    by (rule calculateOptimalSpeed_low) simp
  from analyzeFile_outcomes [OF h, of ready 65536] a detectBPM_clicks s
  have c1: "map_option fst (analyzeFile 65536 ready (Some clicks)) =
      Some (Inr \<lparr>bpm = 80, confidence = 0.85, optimalSpeed = 0.5\<rparr>)"
    by auto
  from analyzeFile_outcomes [OF h, of ready 8] a detectBPM_clicks_limit
  have c2: "map_option fst (analyzeFile 8 ready (Some clicks)) =
      Some (Inr \<lparr>bpm = 120, confidence = 0.5, optimalSpeed = 2.0\<rparr>)"
    by auto
  from analyzeFile_outcomes [OF h', of ready 65536] a
  have c3: "map_option fst (analyzeFile 65536 ready None) =
      Some (Inr \<lparr>bpm = 120, confidence = 0.5, optimalSpeed = 2.0\<rparr>)"
    by auto
  from analyzeFile_outcomes [OF h, of uninitialized 65536] u
  have c4: "map_option fst (analyzeFile 65536 uninitialized (Some clicks)) =
      Some (Inl (Error ''Audio context not initialized''))"
    by simp
  from h a u c1 c2 c3 c4 show ?thesis
    by (simp add: clicks_def)
qed

text \<open>
  C2 as stated fails: on a processor whose audio context could not be created, the call
  throws to its caller, whatever the file.
\<close>

theorem analyzeFile_throws_counterexample:
  "analyzeFile 65536 uninitialized (Some silence_44100) =
     Some (Inl (Error ''Audio context not initialized''), uninitialized)"
  by (simp add: analyzeFile_def uninitialized_def)

end
